theory Spec2Isabelle
  imports Main "HOL-Library.Word" "HOL-Library.Log_Nat"
begin

section \<open>The logo preprocessor: \<^verbatim>\<open>scripts/preprocess-logo.py\<close>\<close>

text \<open>
  The script opens an image, converts it to RGBA, reads it into a numpy array
  \<^verbatim>\<open>data\<close> of shape (height, width, 4) and element type \<^verbatim>\<open>uint8\<close>, rewrites the alpha
  channel through two boolean masks and saves the array as an image again.

  The array is a list of rows, a row a list of pixels, a pixel the list of its channel
  values. Every numpy operation the function uses is a definition of its own, and
  \<open>remove_black_background_data\<close> is the sequence of statements of the source on the array.
\<close>

subsection \<open>Arrays\<close>

type_synonym uint8 = "8 word"
type_synonym 'a array2 = "'a list list"
type_synonym ndarray = "uint8 list list list"

text \<open>The shape \<open>(h, w, 4)\<close> of the array that \<^verbatim>\<open>np.array(img)\<close> gives for an RGBA image.\<close>

definition is_rgba :: "nat \<Rightarrow> nat \<Rightarrow> ndarray \<Rightarrow> bool" where
  "is_rgba h w data \<longleftrightarrow>
     length data = h \<and> list_all (\<lambda>row. length row = w \<and> list_all (\<lambda>p. length p = 4) row) data"

text \<open>\<^verbatim>\<open>data[:,:,k]\<close>: the view of channel \<open>k\<close>.\<close>

definition getchannel :: "nat \<Rightarrow> ndarray \<Rightarrow> uint8 array2" where
  "getchannel k data = map (map (\<lambda>p. p ! k)) data"

text \<open>
  \<^verbatim>\<open>a < t\<close> for a \<^verbatim>\<open>uint8\<close> array and a Python integer: the comparison is the one of the
  integers, whatever the size of \<open>t\<close>.
\<close>

definition less_scalar :: "uint8 array2 \<Rightarrow> int \<Rightarrow> bool array2" where
  "less_scalar a t = map (map (\<lambda>x. uint x < t)) a"

text \<open>\<^verbatim>\<open>m1 & m2\<close> and \<^verbatim>\<open>~m\<close> on boolean arrays.\<close>

definition logical_and :: "bool array2 \<Rightarrow> bool array2 \<Rightarrow> bool array2" where
  "logical_and m1 m2 = map2 (map2 (\<and>)) m1 m2"

definition logical_not :: "bool array2 \<Rightarrow> bool array2" where
  "logical_not m = map (map Not) m"

text \<open>
  \<^verbatim>\<open>a[mask]\<close>: the elements of \<open>a\<close> where the mask holds, as a one-dimensional array in
  row-major order.
\<close>

definition take_row :: "'a list \<Rightarrow> bool list \<Rightarrow> 'a list" where
  "take_row xs ms = map fst (filter snd (zip xs ms))"

definition take_mask :: "'a array2 \<Rightarrow> bool array2 \<Rightarrow> 'a list" where
  "take_mask a msk = concat (map2 take_row a msk)"

definition count_true :: "bool array2 \<Rightarrow> nat" where
  "count_true msk = length (concat (map (filter id) msk))"

text \<open>\<^verbatim>\<open>data[mask, c] = v\<close> for a scalar \<open>v\<close>.\<close>

definition setitem_scalar :: "ndarray \<Rightarrow> bool array2 \<Rightarrow> nat \<Rightarrow> uint8 \<Rightarrow> ndarray" where
  "setitem_scalar data msk c v =
     map2 (map2 (\<lambda>p m. if m then p[c := v] else p)) data msk"

text \<open>
  \<^verbatim>\<open>data[mask, c] = vals\<close> for a one-dimensional array \<open>vals\<close>: the values go to the
  selected pixels in row-major order. numpy raises \<^verbatim>\<open>ValueError\<close> unless there is exactly
  one value for each selected pixel.
\<close>

datatype error = ValueError | DecodeError

fun setitem_row :: "uint8 list list \<Rightarrow> bool list \<Rightarrow> nat \<Rightarrow> uint8 list \<Rightarrow> uint8 list list" where
  "setitem_row (p # ps) (m # ms) c vals =
     (if m then (case vals of
                   [] \<Rightarrow> p # ps
                 | v # vals' \<Rightarrow> p[c := v] # setitem_row ps ms c vals')
      else p # setitem_row ps ms c vals)"
| "setitem_row ps ms c vals = ps"

fun setitem_rows :: "ndarray \<Rightarrow> bool array2 \<Rightarrow> nat \<Rightarrow> uint8 list \<Rightarrow> ndarray" where
  "setitem_rows (row # rows) (mrow # msk) c vals =
     setitem_row row mrow c vals # setitem_rows rows msk c (drop (length (filter id mrow)) vals)"
| "setitem_rows rows msk c vals = rows"

definition setitem_array :: "ndarray \<Rightarrow> bool array2 \<Rightarrow> nat \<Rightarrow> uint8 list \<Rightarrow> error + ndarray" where
  "setitem_array data msk c vals =
     (if length vals = count_true msk then Inr (setitem_rows data msk c vals)
      else Inl ValueError)"

subsection \<open>Arithmetic on one-dimensional arrays\<close>

text \<open>
  \<^verbatim>\<open>float64\<close> values are the rationals they denote. \<open>fl\<close> rounds a rational to the nearest
  number with a 53-bit significand, ties to even: the result of every IEEE 754 binary64
  operation is \<open>fl\<close> of the exact result. Overflow and subnormal numbers are left out: the
  values of this program lie between \<open>1/3\<close> and \<open>255 * 255\<close> before the last division.
\<close>

type_synonym float64 = rat

definition pow2 :: "int \<Rightarrow> rat" where
  "pow2 k = (if 0 \<le> k then 2 ^ nat k else 1 / 2 ^ nat (- k))"

text \<open>The binary exponent of a positive rational: \<open>pow2 (expo x) \<le> x < pow2 (expo x + 1)\<close>.\<close>

definition expo :: "rat \<Rightarrow> int" where
  "expo x = (let (p, q) = quotient_of x; k = bitlen p - bitlen q
             in if pow2 k \<le> x then k else k - 1)"

definition round_half_even :: "rat \<Rightarrow> int" where
  "round_half_even x =
     (let f = \<lfloor>x\<rfloor>; d = x - of_int f
      in if d < 1 / 2 then f else if 1 / 2 < d then f + 1 else if even f then f else f + 1)"

definition fl :: "rat \<Rightarrow> float64" where
  "fl x = (if x = 0 then 0
           else let a = \<bar>x\<bar>; u = pow2 (expo a - 52)
                in sgn x * of_int (round_half_even (a / u)) * u)"

text \<open>\<^verbatim>\<open>.astype(int)\<close> on a \<^verbatim>\<open>uint8\<close> array and \<^verbatim>\<open>+\<close> on integer arrays.\<close>

definition astype_int :: "uint8 list \<Rightarrow> int list" where
  "astype_int xs = map uint xs"

definition add_arrays :: "int list \<Rightarrow> int list \<Rightarrow> int list" where
  "add_arrays xs ys = map2 (+) xs ys"

text \<open>
  \<^verbatim>\<open>a / n\<close> for an integer array and a Python integer is true division: both operands are
  converted to \<^verbatim>\<open>float64\<close> and the quotient is rounded. \<^verbatim>\<open>a * n\<close> and \<^verbatim>\<open>a / n\<close> for a
  \<^verbatim>\<open>float64\<close> array convert \<open>n\<close> and round the result.

  For a zero divisor numpy gives \<^verbatim>\<open>inf\<close> or \<^verbatim>\<open>nan\<close>, which the model does not have. The
  function divides by \<^verbatim>\<open>edge_threshold\<close> the values of pixels that are below it, so the
  divisor is positive unless the array is empty (lemma \<open>below_pos\<close>).
\<close>

definition true_divide :: "int list \<Rightarrow> int \<Rightarrow> float64 list" where
  "true_divide xs n = map (\<lambda>x. fl (fl (of_int x) / fl (of_int n))) xs"

definition multiply_scalar :: "float64 list \<Rightarrow> int \<Rightarrow> float64 list" where
  "multiply_scalar xs n = map (\<lambda>x. fl (x * fl (of_int n))) xs"

definition divide_scalar :: "float64 list \<Rightarrow> int \<Rightarrow> float64 list" where
  "divide_scalar xs n = map (\<lambda>x. fl (x / fl (of_int n))) xs"

text \<open>
  \<^verbatim>\<open>.astype(np.uint8)\<close> on a \<^verbatim>\<open>float64\<close> array drops the fraction (towards zero). A value
  outside \<open>[0, 256)\<close> is reduced modulo 256 here; what numpy gives there depends on the
  platform.
\<close>

definition trunc :: "rat \<Rightarrow> int" where
  "trunc x = (if 0 \<le> x then \<lfloor>x\<rfloor> else \<lceil>x\<rceil>)"

definition astype_uint8 :: "float64 list \<Rightarrow> uint8 list" where
  "astype_uint8 xs = map (\<lambda>x. word_of_int (trunc x)) xs"

subsection \<open>The transformation\<close>

text \<open>
  The statements of \<^verbatim>\<open>remove_black_background\<close> between \<^verbatim>\<open>np.array(img)\<close> and
  \<^verbatim>\<open>Image.fromarray(data)\<close>. \<^verbatim>\<open>r\<close>, \<^verbatim>\<open>g\<close> and \<^verbatim>\<open>b\<close> are views of \<^verbatim>\<open>data\<close>: after the
  first assignment they show the array as it is then, so the model reads them again from
  \<open>data1\<close>.
\<close>

definition remove_black_background_data :: "int \<Rightarrow> int \<Rightarrow> ndarray \<Rightarrow> error + ndarray" where
  "remove_black_background_data threshold edge_threshold data =
     (let r = getchannel 0 data; g = getchannel 1 data; b = getchannel 2 data;
          black_mask = logical_and (logical_and (less_scalar r threshold)
                         (less_scalar g threshold)) (less_scalar b threshold);
          data1 = setitem_scalar data black_mask 3 0;
          r = getchannel 0 data1; g = getchannel 1 data1; b = getchannel 2 data1;
          dark_mask = logical_and (logical_and (logical_and (less_scalar r edge_threshold)
                         (less_scalar g edge_threshold)) (less_scalar b edge_threshold))
                         (logical_not black_mask);
          brightness = true_divide
                         (add_arrays (add_arrays (astype_int (take_mask r dark_mask))
                            (astype_int (take_mask g dark_mask)))
                            (astype_int (take_mask b dark_mask))) 3
      in setitem_array data1 dark_mask 3
           (astype_uint8 (divide_scalar (multiply_scalar brightness 255) edge_threshold)))"

subsection \<open>Files, standard output and the entry point\<close>

text \<open>
  The world of the script: for every path that holds a readable image the array that
  \<^verbatim>\<open>np.array(Image.open(path).convert('RGBA'))\<close> gives, the lines printed to standard output,
  and the file accesses in the order they happened. Opening a path that holds no readable
  image fails; a failure of \<^verbatim>\<open>result.save\<close> is not modelled.
\<close>

datatype access = Read string | Write string

record world =
  files :: "string \<rightharpoonup> ndarray"
  stdout :: "string list"
  accesses :: "access list"

definition print :: "string \<Rightarrow> world \<Rightarrow> world" where
  "print line w = w\<lparr>stdout := stdout w @ [line]\<rparr>"

definition open_rgba :: "string \<Rightarrow> world \<Rightarrow> world \<times> (error + ndarray)" where
  "open_rgba path w =
     (let w' = w\<lparr>accesses := accesses w @ [Read path]\<rparr>
      in case files w path of None \<Rightarrow> (w', Inl DecodeError) | Some data \<Rightarrow> (w', Inr data))"

definition save :: "string \<Rightarrow> ndarray \<Rightarrow> world \<Rightarrow> world" where
  "save path data w = w\<lparr>files := (files w)(path \<mapsto> data), accesses := accesses w @ [Write path]\<rparr>"

definition remove_black_background ::
  "string \<Rightarrow> string \<Rightarrow> int \<Rightarrow> int \<Rightarrow> world \<Rightarrow> world \<times> (error + unit)" where
  "remove_black_background input_path output_path threshold edge_threshold w =
     (case open_rgba input_path w of
        (w1, Inl e) \<Rightarrow> (w1, Inl e)
      | (w1, Inr data) \<Rightarrow>
          (case remove_black_background_data threshold edge_threshold data of
             Inl e \<Rightarrow> (w1, Inl e)
           | Inr result \<Rightarrow>
               (print (''Saved transparent logo to '' @ output_path) (save output_path result w1),
                Inr ())))"

definition usage :: string where
  "usage = ''Usage: python preprocess-logo.py <input.png> <output.png>''"

text \<open>
  The \<^verbatim>\<open>__main__\<close> block: \<open>argv\<close> is \<^verbatim>\<open>sys.argv\<close>, the script name followed by the positional
  arguments; the result is the world afterwards and the exit status (1 for
  \<^verbatim>\<open>sys.exit(1)\<close> and for an exception that nothing catches, 0 otherwise).
\<close>

definition main :: "string list \<Rightarrow> world \<Rightarrow> world \<times> int" where
  "main argv w =
     (if length argv \<noteq> 3 then (print usage w, 1)
      else case remove_black_background (argv ! 1) (argv ! 2) 30 60 w of
             (w', Inl e) \<Rightarrow> (w', 1)
           | (w', Inr u) \<Rightarrow> (w', 0))"

subsection \<open>The transformation of one pixel\<close>

text \<open>
  What the whole-array statements do to a single pixel \<open>p\<close>, for the proofs: \<open>below k p\<close>
  is the entry of the mask \<^verbatim>\<open>(r < k) & (g < k) & (b < k)\<close>, \<open>ramp_value\<close> is the
  \<^verbatim>\<open>float64\<close> value \<^verbatim>\<open>brightness * 255 / edge_threshold\<close> for the channel sum \<open>s\<close>, and
  \<open>ramp\<close> is that value after \<^verbatim>\<open>.astype(np.uint8)\<close>. Lemma
  \<open>remove_black_background_data_eq\<close> below proves that the array function is
  \<open>remap_pixel\<close> on every pixel.
\<close>

definition below :: "int \<Rightarrow> uint8 list \<Rightarrow> bool" where
  "below k p \<longleftrightarrow> uint (p ! 0) < k \<and> uint (p ! 1) < k \<and> uint (p ! 2) < k"

definition ramp_value :: "int \<Rightarrow> int \<Rightarrow> float64" where
  "ramp_value edge_threshold s =
     fl (fl (fl (fl (of_int s) / fl 3) * fl 255) / fl (of_int edge_threshold))"

definition ramp :: "int \<Rightarrow> int \<Rightarrow> uint8" where
  "ramp edge_threshold s = word_of_int (trunc (ramp_value edge_threshold s))"

definition remap_pixel :: "int \<Rightarrow> int \<Rightarrow> uint8 list \<Rightarrow> uint8 list" where
  "remap_pixel threshold edge_threshold p =
     (if below threshold p then p[3 := 0]
      else if below edge_threshold p
           then p[3 := ramp edge_threshold (uint (p ! 0) + uint (p ! 1) + uint (p ! 2))]
           else p)"

text \<open>
  The alpha value that the specification gives for a pixel of the dark-edge mask at the
  default thresholds, in its own words: \<open>round((R+G+B)/3 \<times> 255/60)\<close>, clamped to
  \<open>[0, 255]\<close>.
\<close>

definition spec_dark_alpha :: "int \<Rightarrow> int \<Rightarrow> int \<Rightarrow> int" where
  "spec_dark_alpha r g b =
     max 0 (min 255 (round ((of_int (r + g + b) :: rat) / 3 * 255 / 60)))"

section \<open>The array operations, pixel by pixel\<close>

text \<open>
  All masks and channel views of the function are computed from the one array, so they
  have its shape; each operation is then a \<open>map\<close> over the pixels.
\<close>

lemma map2_map_same: "map2 f (map g xs) (map h xs) = map (\<lambda>x. f (g x) (h x)) xs"
  by (induction xs) simp_all

lemma getchannel_map: "getchannel k (map (map f) data) = map (map (\<lambda>p. f p ! k)) data"
  by (simp add: getchannel_def)

lemma getchannel_same: "getchannel k data = map (map (\<lambda>p. p ! k)) data"
  by (simp add: getchannel_def)

lemma less_scalar_map:
  "less_scalar (map (map f) data) t = map (map (\<lambda>p. uint (f p) < t)) data"
  by (simp add: less_scalar_def)

lemma logical_and_map:
  "logical_and (map (map P) data) (map (map Q) data) = map (map (\<lambda>p. P p \<and> Q p)) data"
  by (simp add: logical_and_def map2_map_same)

lemma logical_not_map: "logical_not (map (map P) data) = map (map (\<lambda>p. \<not> P p)) data"
  by (simp add: logical_not_def)

lemma setitem_scalar_map:
  "setitem_scalar (map (map f) data) (map (map P) data) c v =
     map (map (\<lambda>p. if P p then (f p)[c := v] else f p)) data"
  by (simp add: setitem_scalar_def map2_map_same)

lemma setitem_scalar_same:
  "setitem_scalar data (map (map P) data) c v = map (map (\<lambda>p. if P p then p[c := v] else p)) data"
  using setitem_scalar_map [of "\<lambda>p. p" data P c v] by simp

lemma take_row_map: "take_row (map f ps) (map P ps) = map f (filter P ps)"
  by (induction ps) (simp_all add: take_row_def)

lemma take_mask_map:
  "take_mask (map (map f) data) (map (map P) data) = map f (concat (map (filter P) data))"
  by (simp add: take_mask_def map2_map_same take_row_map map_concat o_def)

lemma filter_id_map: "filter id (map P ps) = map P (filter P ps)"
  by (induction ps) simp_all

lemma count_true_map:
  "count_true (map (map P) data) = length (concat (map (filter P) data))"
  by (simp add: count_true_def filter_id_map length_concat o_def)

text \<open>
  The assignment of an array of values: the values were computed from the selected pixels
  in row-major order, and go back to the same pixels in the same order.
\<close>

lemma setitem_row_map:
  "setitem_row (map f ps) (map P ps) c (map F (filter P ps) @ rest) =
     map (\<lambda>p. if P p then (f p)[c := F p] else f p) ps"
  by (induction ps) simp_all

lemma setitem_rows_map:
  "setitem_rows (map (map f) data) (map (map P) data) c (map F (concat (map (filter P) data))) =
     map (map (\<lambda>p. if P p then (f p)[c := F p] else f p)) data"
proof (induction data)
  case Nil
  show ?case by simp
next
  case (Cons row rows)
  have "setitem_row (map f row) (map P row) c
          (map F (filter P row) @ map F (concat (map (filter P) rows))) =
        map (\<lambda>p. if P p then (f p)[c := F p] else f p) row"
    by (rule setitem_row_map)
  with Cons show ?case by (simp add: filter_id_map)
qed

lemma setitem_array_map:
  "setitem_array (map (map f) data) (map (map P) data) c (map F (concat (map (filter P) data))) =
     Inr (map (map (\<lambda>p. if P p then (f p)[c := F p] else f p)) data)"
  by (simp add: setitem_array_def count_true_map setitem_rows_map)

text \<open>
  The function never raises, and its result is \<open>remap_pixel\<close> on every pixel.
\<close>

lemma remove_black_background_data_eq:
  "remove_black_background_data threshold edge_threshold data =
     Inr (map (map (remap_pixel threshold edge_threshold)) data)"
proof -
  define g :: "uint8 list \<Rightarrow> uint8 list"
    where "g = (\<lambda>p. if below threshold p then p[3 := 0] else p)"
  define D :: "uint8 list \<Rightarrow> bool"
    where "D = (\<lambda>p. below edge_threshold p \<and> \<not> below threshold p)"
  define F :: "uint8 list \<Rightarrow> uint8"
    where "F = (\<lambda>p. ramp edge_threshold (uint (p ! 0) + uint (p ! 1) + uint (p ! 2)))"
  define L where "L = concat (map (filter D) data)"
  have black: "logical_and (logical_and (less_scalar (getchannel 0 data) threshold)
                 (less_scalar (getchannel 1 data) threshold))
                 (less_scalar (getchannel 2 data) threshold) = map (map (below threshold)) data"
    by (simp add: getchannel_same less_scalar_map logical_and_map below_def)
  have data1: "setitem_scalar data (map (map (below threshold)) data) 3 0 = map (map g) data"
    by (simp add: setitem_scalar_same g_def)
  have chan: "getchannel k (map (map g) data) = map (map (\<lambda>p. p ! k)) data" if "k < 3" for k
    using that by (simp add: getchannel_map g_def if_distrib [of "\<lambda>q. q ! k"] cong: if_cong)
  have dark: "logical_and (logical_and (logical_and
                 (less_scalar (getchannel 0 (map (map g) data)) edge_threshold)
                 (less_scalar (getchannel 1 (map (map g) data)) edge_threshold))
                 (less_scalar (getchannel 2 (map (map g) data)) edge_threshold))
                 (logical_not (map (map (below threshold)) data)) = map (map D) data"
    by (simp add: chan less_scalar_map logical_and_map logical_not_map below_def D_def)
  have vals: "astype_uint8 (divide_scalar (multiply_scalar (true_divide
                 (add_arrays (add_arrays
                    (astype_int (take_mask (getchannel 0 (map (map g) data)) (map (map D) data)))
                    (astype_int (take_mask (getchannel 1 (map (map g) data)) (map (map D) data))))
                    (astype_int (take_mask (getchannel 2 (map (map g) data)) (map (map D) data))))
                 3) 255) edge_threshold) = map F L"
    by (simp add: chan take_mask_map astype_int_def add_arrays_def map2_map_same
        true_divide_def multiply_scalar_def divide_scalar_def astype_uint8_def
        F_def L_def ramp_def ramp_value_def)
  have "setitem_array (map (map g) data) (map (map D) data) 3 (map F L) =
          Inr (map (map (\<lambda>p. if D p then (g p)[3 := F p] else g p)) data)"
    unfolding L_def by (rule setitem_array_map)
  moreover have "(\<lambda>p. if D p then (g p)[3 := F p] else g p) = remap_pixel threshold edge_threshold"
    by (rule ext) (simp add: D_def g_def F_def remap_pixel_def)
  ultimately show ?thesis
    unfolding remove_black_background_data_def Let_def black data1 dark vals by simp
qed

section \<open>Rounding to \<^verbatim>\<open>float64\<close>\<close>

text \<open>
  \<open>fl\<close> is exact on the numbers it can represent and has a relative error of at most
  \<open>1 / 2 ^ 53\<close> elsewhere. With these two facts the value of the ramp at the default
  edge threshold lies strictly between two integers, for every channel sum a pixel of the
  dark-edge mask can have.
\<close>

lemma pow2_powi: "pow2 k = power_int 2 k"
  by (simp add: pow2_def power_int_def power_inverse inverse_eq_divide power_one_over)

lemma pow2_pos: "0 < pow2 k"
  by (simp add: pow2_powi)

lemma expo_lower:
  assumes "0 < x"
  shows "pow2 (expo x) \<le> x"
proof -
  obtain p q where pq: "quotient_of x = (p, q)" by force
  have q: "0 < q" using pq by (rule quotient_of_denom_pos)
  have x: "x = of_int p / of_int q" using pq by (rule quotient_of_div)
  have p: "0 < p" using assms q x by (simp add: zero_less_divide_iff)
  define k where "k = bitlen p - bitlen q"
  show ?thesis
  proof (cases "pow2 k \<le> x")
    case True
    then show ?thesis by (simp add: expo_def pq k_def)
  next
    case False
    then have e: "expo x = k - 1" by (simp add: expo_def pq k_def)
    have bp: "1 \<le> bitlen p" using p bitlen_eq_zero_iff [of p] bitlen_nonneg [of p] by linarith
    have "(2::int) ^ nat (bitlen p - 1) \<le> p" using bitlen_bounds [OF p] by simp
    then have "(of_int ((2::int) ^ nat (bitlen p - 1)) :: rat) \<le> of_int p"
      by (simp only: of_int_le_iff)
    then have lo: "power_int (2::rat) (bitlen p - 1) \<le> of_int p"
      using bp by (simp add: power_int_def)
    have "q < (2::int) ^ nat (bitlen q)" using bitlen_bounds [OF q] by simp
    then have "(of_int q :: rat) < of_int ((2::int) ^ nat (bitlen q))"
      by (simp only: of_int_less_iff)
    then have hi: "of_int q < power_int (2::rat) (bitlen q)"
      using bitlen_nonneg [of q] by (simp add: power_int_def)
    have "power_int (2::rat) (k - 1) = power_int 2 (bitlen p - 1) / power_int 2 (bitlen q)"
      by (simp add: k_def power_int_diff)
    also have "\<dots> \<le> of_int p / power_int 2 (bitlen q)"
      using lo by (simp add: divide_right_mono)
    also have "\<dots> \<le> of_int p / of_int q"
      using hi p q by (simp add: divide_left_mono)
    finally have "power_int (2::rat) (k - 1) \<le> x" by (simp add: x)
    then show ?thesis by (simp only: e pow2_powi)
  qed
qed

lemma expo_less:
  assumes "0 < x" "x < 2 ^ n"
  shows "expo x < int n"
proof (rule ccontr)
  assume "\<not> expo x < int n"
  then have "int n \<le> expo x" by simp
  then have "power_int (2::rat) (int n) \<le> power_int 2 (expo x)"
    by (rule power_int_increasing) simp
  then have "(2::rat) ^ n \<le> x" using expo_lower [OF assms(1)] by (simp add: pow2_powi)
  with assms(2) show False by simp
qed

lemma round_half_even_error: "\<bar>of_int (round_half_even y) - y\<bar> \<le> 1 / 2"
proof -
  have "of_int \<lfloor>y\<rfloor> \<le> y" "y < of_int \<lfloor>y\<rfloor> + 1" by linarith+
  then show ?thesis by (auto simp: round_half_even_def Let_def)
qed

lemma round_half_even_of_int: "round_half_even (of_int n) = n"
  by (simp add: round_half_even_def)

lemma pow2_shift: "pow2 (e - 52) = pow2 e / 2 ^ 52"
  by (simp add: pow2_powi power_int_diff)

lemma fl_error:
  assumes "0 < x"
  shows "\<bar>fl x - x\<bar> \<le> x / 2 ^ 53"
proof -
  define u where "u = pow2 (expo x - 52)"
  have u: "0 < u" by (simp add: u_def pow2_pos)
  have fl: "fl x = of_int (round_half_even (x / u)) * u"
    using assms by (simp add: fl_def Let_def u_def)
  have "\<bar>of_int (round_half_even (x / u)) - x / u\<bar> * u \<le> 1 / 2 * u"
    using round_half_even_error [of "x / u"] u by (simp only: mult_le_cancel_right, simp)
  moreover have "\<bar>of_int (round_half_even (x / u)) - x / u\<bar> * u = \<bar>fl x - x\<bar>"
  proof -
    have "\<bar>of_int (round_half_even (x / u)) - x / u\<bar> * u = \<bar>(of_int (round_half_even (x / u)) - x / u) * u\<bar>"
      using u by (simp add: abs_mult)
    also have "(of_int (round_half_even (x / u)) - x / u) * u = fl x - x"
      using u by (simp add: fl algebra_simps)
    finally show ?thesis .
  qed
  moreover have "1 / 2 * u \<le> x / 2 ^ 53"
    using expo_lower [OF assms] by (simp add: u_def pow2_shift)
  ultimately show ?thesis by linarith
qed


lemma fl_exact:
  assumes "0 \<le> x" "x < 2 ^ 50" "x = of_int m / 4"
  shows "fl x = x"
proof (cases "x = 0")
  case True
  then show ?thesis by (simp add: fl_def)
next
  case False
  with assms(1) have pos: "0 < x" by simp
  define n where "n = nat (50 - expo x)"
  have e: "expo x < 50" using expo_less [OF pos assms(2)] by simp
  then have "nat (- (expo x - 52)) = Suc (Suc n)" by (simp add: n_def)
  then have u: "pow2 (expo x - 52) = 1 / (4 * 2 ^ n)"
    using e by (simp add: pow2_def)
  have "x / pow2 (expo x - 52) = of_int (m * 2 ^ n)"
    by (simp only: u) (simp add: assms(3))
  then have "round_half_even (x / pow2 (expo x - 52)) = m * 2 ^ n"
    by (simp only: round_half_even_of_int)
  then have "fl x = of_int (m * 2 ^ n) * (1 / (4 * 2 ^ n))"
    using pos by (simp add: fl_def Let_def u)
  then show ?thesis by (simp add: assms(3))
qed

lemma fl_of_int:
  assumes "0 \<le> n" "n < 2 ^ 50"
  shows "fl (of_int n) = of_int n"
proof (rule fl_exact [where m = "4 * n"])
  show "(0::rat) \<le> of_int n" using assms(1) by simp
  have "(of_int n :: rat) < of_int (2 ^ 50)" using assms(2) by (simp only: of_int_less_iff)
  then show "(of_int n :: rat) < 2 ^ 50" by simp
  show "(of_int n :: rat) = of_int (4 * n) / 4" by simp
qed

lemma fl_consts: "fl 3 = 3" "fl 255 = 255" "fl 60 = 60"
  using fl_of_int [of 3] fl_of_int [of 255] fl_of_int [of 60] by simp_all

lemma ramp_value_default:
  assumes "0 \<le> s" "s \<le> 177"
  shows "of_int (17 * s div 12) \<le> ramp_value 60 s \<and> ramp_value 60 s < of_int (17 * s div 12) + 1"
proof -
  have s: "fl (of_int s) = of_int s" using assms by (intro fl_of_int) simp_all
  define v1 where "v1 = fl (of_int s / 3)"
  define v2 where "v2 = fl (v1 * 255)"
  define v3 where "v3 = fl (v2 / 60)"
  have rv: "ramp_value 60 s = v3"
    by (simp add: ramp_value_def s fl_consts v1_def v2_def v3_def)
  show ?thesis
  proof (cases "3 dvd s")
    case True
    then obtain b where b: "s = 3 * b" by (rule dvdE)
    have b0: "0 \<le> b" "b \<le> 59" using assms b by simp_all
    have "v1 = of_int b" unfolding v1_def b using b0 fl_of_int [of b] by simp
    moreover have "fl (of_int (b * 255)) = of_int (b * 255)"
      using b0 by (intro fl_of_int) simp_all
    ultimately have v2: "v2 = of_int (b * 255)" by (simp add: v2_def)
    have "fl (of_int (17 * b) / 4) = of_int (17 * b) / 4"
    proof (rule fl_exact [where m = "17 * b"])
      show "(0::rat) \<le> of_int (17 * b) / 4" using b0 by simp
      have "(of_int b :: rat) \<le> 59" using b0 by simp
      then show "(of_int (17 * b) :: rat) / 4 < 2 ^ 50" by simp
    qed simp
    moreover have "v2 / 60 = of_int (17 * b) / 4" by (simp add: v2)
    ultimately have v3: "v3 = of_int (17 * b) / 4" by (simp add: v3_def)
    have d: "17 * s div 12 = 17 * b div 4" by (simp add: b)
    have "\<lfloor>(of_int (17 * b) :: rat) / of_int 4\<rfloor> = 17 * b div 4"
      by (rule floor_divide_of_int_eq)
    then have "\<lfloor>v3\<rfloor> = 17 * s div 12" by (simp add: v3 d)
    then show ?thesis unfolding rv by linarith
  next
    case False
    then have pos: "0 < s" using assms(1) by (cases "s = 0") simp_all
    have sr: "(0::rat) < of_int s" "(of_int s :: rat) \<le> 177" using pos assms(2) by simp_all
    have h1: "\<bar>v1 - of_int s / 3\<bar> \<le> of_int s / 3 / 9007199254740992"
      unfolding v1_def using sr fl_error [of "of_int s / 3"] by simp
    then have v1: "0 < v1" using sr by linarith
    have h2: "\<bar>v2 - v1 * 255\<bar> \<le> v1 * 255 / 9007199254740992"
      unfolding v2_def using v1 fl_error [of "v1 * 255"] by simp
    then have v2: "0 < v2" using v1 by linarith
    have h3: "\<bar>v3 - v2 / 60\<bar> \<le> v2 / 60 / 9007199254740992"
      unfolding v3_def using v2 fl_error [of "v2 / 60"] by simp
    have close: "\<bar>v3 - 17 * of_int s / 12\<bar> \<le> 1 / 24"
      using h1 h2 h3 sr by linarith
    define N where "N = 17 * s div 12"
    define k where "k = 17 * s mod 12"
    have "\<not> 12 dvd 17 * s" using False by presburger
    then have k: "1 \<le> k" "k \<le> 11" unfolding k_def by presburger+
    have "17 * s = 12 * N + k" by (simp add: N_def k_def)
    then have "(of_int (17 * s) :: rat) = of_int (12 * N + k)" by (simp only:)
    then have eq: "17 * (of_int s :: rat) = 12 * of_int N + of_int k" by simp
    have kr: "(1::rat) \<le> of_int k" "(of_int k :: rat) \<le> 11" using k by simp_all
    have "of_int N \<le> v3 \<and> v3 < of_int N + 1" using close eq kr by linarith
    then show ?thesis by (simp add: rv N_def)
  qed
qed

section \<open>Properties of the transformation\<close>

text \<open>
  The \<^verbatim>\<open>float64\<close> array of the source, for a selection of one pixel with channel sum \<open>s\<close>,
  holds \<open>ramp_value\<close>.
\<close>

lemma ramp_value_array:
  "divide_scalar (multiply_scalar (true_divide [s] 3) 255) edge_threshold =
     [ramp_value edge_threshold s]"
  by (simp add: divide_scalar_def multiply_scalar_def true_divide_def ramp_value_def)

text \<open>
  At the default edge threshold the cast gives \<open>17 * s div 12\<close>, which is
  \<open>s * 255 div 180\<close>: the quotient \<open>s / 3 * 255 / 60\<close> without its fraction.
\<close>

lemma ramp_default:
  assumes "0 \<le> s" "s \<le> 177"
  shows "trunc (ramp_value 60 s) = 17 * s div 12"
    and "uint (ramp 60 s) = 17 * s div 12"
    and "ramp 60 s = word_of_int (17 * s div 12)"
proof -
  have b: "of_int (17 * s div 12) \<le> ramp_value 60 s"
    "ramp_value 60 s < of_int (17 * s div 12) + 1"
    using ramp_value_default [OF assms] by simp_all
  have "17 * s div 12 \<le> 17 * 177 div 12" using assms(2) by (intro zdiv_mono1) simp_all
  then have n: "0 \<le> 17 * s div 12" "17 * s div 12 < 256"
    using assms(1) by (simp_all add: pos_imp_zdiv_nonneg_iff)
  then have "(0::rat) \<le> of_int (17 * s div 12)" by (simp only: of_int_0_le_iff)
  with b have "0 \<le> ramp_value 60 s" by linarith
  moreover have "\<lfloor>ramp_value 60 s\<rfloor> = 17 * s div 12" using b by (intro floor_unique) simp_all
  ultimately show t: "trunc (ramp_value 60 s) = 17 * s div 12" by (simp add: trunc_def)
  show "uint (ramp 60 s) = 17 * s div 12"
    using n by (simp add: ramp_def t uint_word_of_int take_bit_int_eq_self)
  show "ramp 60 s = word_of_int (17 * s div 12)"
    by (simp add: ramp_def t)
qed

lemma result_pixel:
  assumes "y < length data" "x < length (data ! y)"
  shows "\<exists>out. remove_black_background_data threshold edge_threshold data = Inr out \<and>
           out ! y ! x = remap_pixel threshold edge_threshold (data ! y ! x)"
  using assms by (simp add: remove_black_background_data_eq)

lemma is_rgba_nth:
  assumes "is_rgba h w data" "y < h" "x < w"
  shows "y < length data" and "x < length (data ! y)" and "length (data ! y ! x) = 4"
  using assms by (simp_all add: is_rgba_def list_all_length)

lemma below_pos:
  assumes "below k p"
  shows "0 < k"
proof -
  have "uint (p ! 0) < k" using assms by (simp add: below_def)
  moreover have "0 \<le> uint (p ! 0)" by (rule uint_ge_0)
  ultimately show ?thesis by linarith
qed

lemma below_update: "below k (p[3 := v]) = below k p"
  by (simp add: below_def)

lemma remap_pixel_rgb: "k < 3 \<Longrightarrow> remap_pixel threshold edge_threshold p ! k = p ! k"
  by (simp add: remap_pixel_def)

lemma length_remap_pixel: "length (remap_pixel threshold edge_threshold p) = length p"
  by (simp add: remap_pixel_def)

lemma remap_pixel_idem:
  "remap_pixel threshold edge_threshold (remap_pixel threshold edge_threshold p) =
     remap_pixel threshold edge_threshold p"
  by (simp add: remap_pixel_def below_update)

lemma dark_sum_bounds:
  assumes "below 60 p"
  shows "0 \<le> uint (p ! 0) + uint (p ! 1) + uint (p ! 2)"
    and "uint (p ! 0) + uint (p ! 1) + uint (p ! 2) \<le> 177"
  using assms uint_ge_0 [of "p ! 0"] uint_ge_0 [of "p ! 1"] uint_ge_0 [of "p ! 2"]
  by (simp_all add: below_def)

lemma dark_pixel_alpha:
  assumes "is_rgba h w data" "y < h" "x < w"
    and "below 60 (data ! y ! x)" "\<not> below 30 (data ! y ! x)"
  shows "\<exists>out. remove_black_background_data 30 60 data = Inr out \<and>
           out ! y ! x ! 3 =
             ramp 60 (uint (data ! y ! x ! 0) + uint (data ! y ! x ! 1) + uint (data ! y ! x ! 2))"
proof -
  note n = is_rgba_nth [OF assms(1-3)]
  have "remap_pixel 30 60 (data ! y ! x) ! 3 =
          ramp 60 (uint (data ! y ! x ! 0) + uint (data ! y ! x ! 1) + uint (data ! y ! x ! 2))"
    using assms(4,5) n(3) by (simp add: remap_pixel_def)
  with result_pixel [OF n(1,2), of 30 60] show ?thesis by auto
qed

subsection \<open>The black mask\<close>

text \<open>
  Claim C1. For every pixel of the input grid whose R, G and B channels are each strictly
  below \<open>threshold\<close>, the function returns an array in which the alpha channel of that
  pixel is 0 and its R, G and B channels are those of the input.
\<close>

theorem black_pixel_transparent:
  assumes "is_rgba h w data" "y < h" "x < w"
    and "uint (data ! y ! x ! 0) < threshold"
    and "uint (data ! y ! x ! 1) < threshold"
    and "uint (data ! y ! x ! 2) < threshold"
  shows "\<exists>out. remove_black_background_data threshold edge_threshold data = Inr out \<and>
           out ! y ! x ! 3 = 0 \<and>
           out ! y ! x ! 0 = data ! y ! x ! 0 \<and>
           out ! y ! x ! 1 = data ! y ! x ! 1 \<and>
           out ! y ! x ! 2 = data ! y ! x ! 2"
proof -
  note n = is_rgba_nth [OF assms(1-3)]
  have "remap_pixel threshold edge_threshold (data ! y ! x) = (data ! y ! x)[3 := 0]"
    using assms(4-6) by (simp add: remap_pixel_def below_def)
  with result_pixel [OF n(1,2), of threshold edge_threshold] n(3) show ?thesis
    by auto
qed

theorem black_pixel_transparent_witness:
  "is_rgba 1 1 [[[10, 20, 29, 255]]] \<and>
   uint ([[[10, 20, 29, 255 :: uint8]]] ! 0 ! 0 ! 0) < 30 \<and>
   uint ([[[10, 20, 29, 255 :: uint8]]] ! 0 ! 0 ! 1) < 30 \<and>
   uint ([[[10, 20, 29, 255 :: uint8]]] ! 0 ! 0 ! 2) < 30 \<and>
   (\<exists>out. remove_black_background_data 30 60 [[[10, 20, 29, 255]]] = Inr out \<and>
      out ! 0 ! 0 ! 3 = 0 \<and> out ! 0 ! 0 ! 0 = 10 \<and> out ! 0 ! 0 ! 1 = 20 \<and> out ! 0 ! 0 ! 2 = 29)"
  using black_pixel_transparent [of 1 1 "[[[10, 20, 29, 255]]]" 0 0 30 60]
  by (simp add: is_rgba_def)

subsection \<open>The dark-edge mask\<close>

text \<open>
  Claim C2, as the specification states it: for every pixel whose channels all lie in
  \<open>[30, 60)\<close> the output alpha is \<open>round((R+G+B)/3 \<times> 255/60)\<close>, clamped to \<open>[0, 255]\<close>.
  The pixel \<open>(31, 31, 31)\<close> refutes it: the value is \<open>131.75\<close>, the cast to \<^verbatim>\<open>uint8\<close> drops
  the fraction and stores 131, and rounding gives 132.
\<close>

theorem dark_counterexample:
  "remove_black_background_data 30 60 [[[31, 31, 31, 255]]] = Inr [[[31, 31, 31, 131]]] \<and>
   uint (131 :: uint8) \<noteq> spec_dark_alpha 31 31 31"
proof -
  have "ramp 60 93 = 131" using ramp_default(3) [of 93] by simp
  then have "remap_pixel 30 60 [31, 31, 31, 255] = [31, 31, 31, 131]"
    by (simp add: remap_pixel_def below_def)
  moreover have "\<lfloor>529 / 4 :: rat\<rfloor> = 132"
    by (rule floor_unique) simp_all
  then have "spec_dark_alpha 31 31 31 = 132"
    by (simp add: spec_dark_alpha_def round_def)
  ultimately show ?thesis by (simp add: remove_black_background_data_eq)
qed

text \<open>
  Claim C2, amended: for every pixel whose channels all lie in \<open>[30, 60)\<close>, at the default
  thresholds, the output alpha is \<open>(R+G+B) \<times> 255 / (3 \<times> 60)\<close> with the fraction dropped.
\<close>

theorem dark_pixel_alpha_floor:
  assumes "is_rgba h w data" "y < h" "x < w"
    and "30 \<le> uint (data ! y ! x ! 0)" "uint (data ! y ! x ! 0) < 60"
    and "30 \<le> uint (data ! y ! x ! 1)" "uint (data ! y ! x ! 1) < 60"
    and "30 \<le> uint (data ! y ! x ! 2)" "uint (data ! y ! x ! 2) < 60"
  shows "\<exists>out. remove_black_background_data 30 60 data = Inr out \<and>
           uint (out ! y ! x ! 3) =
             (uint (data ! y ! x ! 0) + uint (data ! y ! x ! 1) + uint (data ! y ! x ! 2)) * 255
               div (3 * 60)"
proof -
  define s where "s = uint (data ! y ! x ! 0) + uint (data ! y ! x ! 1) + uint (data ! y ! x ! 2)"
  have d: "below 60 (data ! y ! x)" "\<not> below 30 (data ! y ! x)"
    using assms(4-9) by (simp_all add: below_def)
  have "uint (ramp 60 s) = 17 * s div 12"
    unfolding s_def using dark_sum_bounds [OF d(1)] by (rule ramp_default(2))
  moreover have "s * 255 div (3 * 60) = 17 * s div 12"
    using div_mult_mult1 [of 15 "17 * s" 12] by (simp add: mult.commute)
  ultimately show ?thesis
    using dark_pixel_alpha [OF assms(1-3) d] by (auto simp: s_def)
qed

theorem dark_pixel_alpha_floor_witness:
  "is_rgba 1 1 [[[31, 40, 59, 255]]] \<and>
   30 \<le> uint ([[[31, 40, 59, 255 :: uint8]]] ! 0 ! 0 ! 0) \<and>
   uint ([[[31, 40, 59, 255 :: uint8]]] ! 0 ! 0 ! 2) < 60 \<and>
   (\<exists>out. remove_black_background_data 30 60 [[[31, 40, 59, 255]]] = Inr out \<and>
      uint (out ! 0 ! 0 ! 3) = 184)"
  using dark_pixel_alpha_floor [of 1 1 "[[[31, 40, 59, 255]]]" 0 0]
  by (simp add: is_rgba_def)

subsection \<open>Pixels outside both masks, and the colour channels\<close>

text \<open>
  Claim C3. At the default thresholds, for every pixel with \<open>max(R, G, B) \<ge> 60\<close> the
  output alpha is the input alpha.
\<close>

theorem bright_pixel_alpha_unchanged:
  assumes "is_rgba h w data" "y < h" "x < w"
    and "60 \<le> max (uint (data ! y ! x ! 0)) (max (uint (data ! y ! x ! 1)) (uint (data ! y ! x ! 2)))"
  shows "\<exists>out. remove_black_background_data 30 60 data = Inr out \<and>
           out ! y ! x ! 3 = data ! y ! x ! 3"
proof -
  note n = is_rgba_nth [OF assms(1-3)]
  have "remap_pixel 30 60 (data ! y ! x) = data ! y ! x"
    using assms(4) by (auto simp: remap_pixel_def below_def max_def split: if_splits)
  with result_pixel [OF n(1,2), of 30 60] show ?thesis by auto
qed

theorem bright_pixel_alpha_unchanged_witness:
  "is_rgba 1 1 [[[10, 200, 20, 77]]] \<and>
   60 \<le> max (uint ([[[10, 200, 20, 77 :: uint8]]] ! 0 ! 0 ! 0))
          (max (uint ([[[10, 200, 20, 77 :: uint8]]] ! 0 ! 0 ! 1))
               (uint ([[[10, 200, 20, 77 :: uint8]]] ! 0 ! 0 ! 2))) \<and>
   (\<exists>out. remove_black_background_data 30 60 [[[10, 200, 20, 77]]] = Inr out \<and>
      out ! 0 ! 0 ! 3 = 77)"
  using bright_pixel_alpha_unchanged [of 1 1 "[[[10, 200, 20, 77]]]" 0 0]
  by (simp add: is_rgba_def)

text \<open>
  Claim C4. The function changes the alpha channel only: for every pixel of the grid,
  whatever mask it is in, the R, G and B channels of the output are those of the input.
\<close>

theorem rgb_channels_unchanged:
  assumes "is_rgba h w data" "y < h" "x < w" "k < 3"
  shows "\<exists>out. remove_black_background_data threshold edge_threshold data = Inr out \<and>
           out ! y ! x ! k = data ! y ! x ! k"
proof -
  note n = is_rgba_nth [OF assms(1-3)]
  from result_pixel [OF n(1,2), of threshold edge_threshold] show ?thesis
    using remap_pixel_rgb [OF assms(4)] by auto
qed

theorem rgb_channels_unchanged_witness:
  "is_rgba 1 2 [[[0, 0, 0, 255], [45, 50, 55, 255]]] \<and>
   (\<exists>out. remove_black_background_data 30 60 [[[0, 0, 0, 255], [45, 50, 55, 255]]] = Inr out \<and>
      out ! 0 ! 1 ! 2 = 55)"
  using rgb_channels_unchanged [of 1 2 "[[[0, 0, 0, 255], [45, 50, 55, 255]]]" 0 1 2 30 60]
  by (simp add: is_rgba_def)

text \<open>
  Claim C5. An image of two pixels with the colours \<open>(0, 0, 0)\<close> and \<open>(45, 45, 45)\<close>, at
  the default thresholds, gets the alpha values 0 and 191, whatever the alpha values of
  the input are. The statement covers both layouts of the two pixels: one row of two, and
  two rows of one.
\<close>

theorem scenario_two_pixels:
  "remove_black_background_data 30 60 [[[0, 0, 0, a1], [45, 45, 45, a2]]] =
     Inr [[[0, 0, 0, 0], [45, 45, 45, 191]]] \<and>
   remove_black_background_data 30 60 [[[0, 0, 0, a1]], [[45, 45, 45, a2]]] =
     Inr [[[0, 0, 0, 0]], [[45, 45, 45, 191]]]"
proof -
  have "ramp 60 135 = 191" using ramp_default(3) [of 135] by simp
  then have "remap_pixel 30 60 [45, 45, 45, a2] = [45, 45, 45, 191]"
    by (simp add: remap_pixel_def below_def)
  moreover have "remap_pixel 30 60 [0, 0, 0, a1] = [0, 0, 0, 0]"
    by (simp add: remap_pixel_def below_def)
  ultimately show ?thesis by (simp add: remove_black_background_data_eq)
qed

subsection \<open>Applying the function twice\<close>

text \<open>
  Claim C6. A second application with the same thresholds to the output of the first
  changes nothing on a pixel that the first application left with alpha 0, or whose
  \<open>max(R, G, B)\<close> is at or above the edge threshold. (The proof shows more: the second
  application changes no pixel at all.)
\<close>

theorem second_pass_unchanged:
  assumes "is_rgba h w data" "y < h" "x < w"
  shows "\<exists>out1 out2.
           remove_black_background_data threshold edge_threshold data = Inr out1 \<and>
           remove_black_background_data threshold edge_threshold out1 = Inr out2 \<and>
           (out1 ! y ! x ! 3 = 0 \<or>
            edge_threshold \<le> max (uint (out1 ! y ! x ! 0))
                                (max (uint (out1 ! y ! x ! 1)) (uint (out1 ! y ! x ! 2)))
            \<longrightarrow> out2 ! y ! x = out1 ! y ! x)"
proof -
  define out1 where "out1 = map (map (remap_pixel threshold edge_threshold)) data"
  have "map (map (remap_pixel threshold edge_threshold)) out1 = out1"
    unfolding out1_def by (simp add: o_def remap_pixel_idem)
  then have "remove_black_background_data threshold edge_threshold out1 = Inr out1"
    by (simp add: remove_black_background_data_eq)
  moreover have "remove_black_background_data threshold edge_threshold data = Inr out1"
    by (simp add: remove_black_background_data_eq out1_def)
  ultimately show ?thesis by blast
qed

theorem second_pass_unchanged_witness:
  "is_rgba 1 2 [[[0, 0, 0, 255], [10, 200, 20, 77]]] \<and>
   (\<exists>out1 out2.
      remove_black_background_data 30 60 [[[0, 0, 0, 255], [10, 200, 20, 77]]] = Inr out1 \<and>
      remove_black_background_data 30 60 out1 = Inr out2 \<and>
      out1 ! 0 ! 0 ! 3 = 0 \<and> out2 ! 0 ! 0 = out1 ! 0 ! 0)"
proof -
  have r: "remove_black_background_data 30 60 [[[0, 0, 0, 255], [10, 200, 20, 77]]] =
             Inr [[[0, 0, 0, 0], [10, 200, 20, 77]]]"
    by (simp add: remove_black_background_data_eq remap_pixel_def below_def)
  show ?thesis
    using second_pass_unchanged [of 1 2 "[[[0, 0, 0, 255], [10, 200, 20, 77]]]" 0 0 30 60]
    by (auto simp: is_rgba_def r)
qed

subsection \<open>Shape\<close>

text \<open>
  Claim C7. For every input array of shape \<open>(h, w, 4)\<close> the output has the same height and
  width and four channels in every pixel.
\<close>

theorem shape_preserved:
  assumes "is_rgba h w data"
  shows "\<exists>out. remove_black_background_data threshold edge_threshold data = Inr out \<and>
           is_rgba h w out"
  using assms
  by (simp add: remove_black_background_data_eq is_rgba_def list_all_iff length_remap_pixel)

theorem shape_preserved_witness:
  "is_rgba 2 1 [[[0, 0, 0, 255]], [[45, 45, 45, 255]]] \<and>
   (\<exists>out. remove_black_background_data 30 60 [[[0, 0, 0, 255]], [[45, 45, 45, 255]]] = Inr out \<and>
      is_rgba 2 1 out)"
  using shape_preserved [of 2 1 "[[[0, 0, 0, 255]], [[45, 45, 45, 255]]]" 30 60]
  by (simp add: is_rgba_def)

subsection \<open>The argument check\<close>

text \<open>
  Claim C8. With any number of positional arguments other than two, the program prints
  the usage line to standard output and exits with status 1; it reads no file and writes
  none.
\<close>

theorem usage_error:
  assumes "length args \<noteq> 2"
  shows "snd (main (script # args) w) = 1 \<and>
         stdout (fst (main (script # args) w)) = stdout w @ [usage] \<and>
         files (fst (main (script # args) w)) = files w \<and>
         accesses (fst (main (script # args) w)) = accesses w"
  using assms by (simp add: main_def print_def)

theorem usage_error_witness:
  "length [''in.png''] \<noteq> 2 \<and>
   snd (main [''preprocess-logo.py'', ''in.png'']
          \<lparr>files = Map.empty, stdout = [], accesses = []\<rparr>) = 1 \<and>
   stdout (fst (main [''preprocess-logo.py'', ''in.png'']
          \<lparr>files = Map.empty, stdout = [], accesses = []\<rparr>)) = [usage] \<and>
   accesses (fst (main [''preprocess-logo.py'', ''in.png'']
          \<lparr>files = Map.empty, stdout = [], accesses = []\<rparr>)) = []"
  using usage_error [of "[''in.png'']" "''preprocess-logo.py''"
      "\<lparr>files = Map.empty, stdout = [], accesses = []\<rparr>"]
  by simp

subsection \<open>The range of the ramp\<close>

text \<open>
  Claim C9. At the default thresholds, for every pixel of the dark-edge mask the
  \<^verbatim>\<open>float64\<close> value \<^verbatim>\<open>brightness * 255 / edge_threshold\<close> lies in \<open>[0, 255]\<close>, so the cast to
  \<^verbatim>\<open>uint8\<close> does not wrap around: the alpha stored is the integer part of that value.
\<close>

theorem ramp_value_in_range:
  assumes "is_rgba h w data" "y < h" "x < w"
    and "uint (data ! y ! x ! 0) < 60" "uint (data ! y ! x ! 1) < 60" "uint (data ! y ! x ! 2) < 60"
    and "\<not> (uint (data ! y ! x ! 0) < 30 \<and> uint (data ! y ! x ! 1) < 30 \<and>
            uint (data ! y ! x ! 2) < 30)"
    and "s = uint (data ! y ! x ! 0) + uint (data ! y ! x ! 1) + uint (data ! y ! x ! 2)"
  shows "divide_scalar (multiply_scalar (true_divide [s] 3) 255) 60 = [ramp_value 60 s] \<and>
         0 \<le> ramp_value 60 s \<and> ramp_value 60 s \<le> 255 \<and>
         (\<exists>out. remove_black_background_data 30 60 data = Inr out \<and>
            uint (out ! y ! x ! 3) = \<lfloor>ramp_value 60 s\<rfloor>)"
proof -
  have d: "below 60 (data ! y ! x)" "\<not> below 30 (data ! y ! x)"
    using assms(4-7) by (simp_all add: below_def)
  have s: "0 \<le> s" "s \<le> 177" unfolding assms(8) using dark_sum_bounds [OF d(1)] by simp_all
  have b: "of_int (17 * s div 12) \<le> ramp_value 60 s"
    "ramp_value 60 s < of_int (17 * s div 12) + 1"
    using ramp_value_default [OF s] by simp_all
  have "17 * s div 12 \<le> 17 * 177 div 12" using s(2) by (intro zdiv_mono1) simp_all
  then have n: "0 \<le> 17 * s div 12" "17 * s div 12 \<le> 250"
    using s(1) by (simp_all add: pos_imp_zdiv_nonneg_iff)
  then have nr: "(0::rat) \<le> of_int (17 * s div 12)" "(of_int (17 * s div 12) :: rat) \<le> 250"
    by simp_all
  have lo: "0 \<le> ramp_value 60 s" and hi: "ramp_value 60 s \<le> 255" using b nr by linarith+
  have fl: "\<lfloor>ramp_value 60 s\<rfloor> = 17 * s div 12" using b by (intro floor_unique) simp_all
  have "uint (ramp 60 s) = \<lfloor>ramp_value 60 s\<rfloor>" using ramp_default(2) [OF s] fl by simp
  with dark_pixel_alpha [OF assms(1-3) d] have
    "\<exists>out. remove_black_background_data 30 60 data = Inr out \<and>
       uint (out ! y ! x ! 3) = \<lfloor>ramp_value 60 s\<rfloor>"
    by (auto simp: assms(8))
  with lo hi show ?thesis by (simp add: ramp_value_array)
qed

theorem ramp_value_in_range_witness:
  "is_rgba 1 1 [[[59, 59, 59, 255]]] \<and>
   uint ([[[59, 59, 59, 255 :: uint8]]] ! 0 ! 0 ! 0) < 60 \<and>
   \<not> uint ([[[59, 59, 59, 255 :: uint8]]] ! 0 ! 0 ! 0) < 30 \<and>
   0 \<le> ramp_value 60 177 \<and> ramp_value 60 177 \<le> 255 \<and>
   (\<exists>out. remove_black_background_data 30 60 [[[59, 59, 59, 255]]] = Inr out \<and>
      uint (out ! 0 ! 0 ! 3) = \<lfloor>ramp_value 60 177\<rfloor>)"
  using ramp_value_in_range [of 1 1 "[[[59, 59, 59, 255]]]" 0 0 177]
  by (simp add: is_rgba_def)

text \<open>
  Claim C10. At the default thresholds, the alpha that the dark-edge branch writes is at
  most 250, so never 255; the pixel \<open>(59, 59, 59)\<close> gets 250.
\<close>

theorem ramp_alpha_at_most_250:
  assumes "is_rgba h w data" "y < h" "x < w"
    and "uint (data ! y ! x ! 0) < 60" "uint (data ! y ! x ! 1) < 60" "uint (data ! y ! x ! 2) < 60"
    and "\<not> (uint (data ! y ! x ! 0) < 30 \<and> uint (data ! y ! x ! 1) < 30 \<and>
            uint (data ! y ! x ! 2) < 30)"
  shows "(\<exists>out. remove_black_background_data 30 60 data = Inr out \<and>
            uint (out ! y ! x ! 3) \<le> 250 \<and> out ! y ! x ! 3 \<noteq> 255) \<and>
         remove_black_background_data 30 60 [[[59, 59, 59, 255]]] = Inr [[[59, 59, 59, 250]]]"
proof -
  define s where "s = uint (data ! y ! x ! 0) + uint (data ! y ! x ! 1) + uint (data ! y ! x ! 2)"
  have d: "below 60 (data ! y ! x)" "\<not> below 30 (data ! y ! x)"
    using assms(4-7) by (simp_all add: below_def)
  have s: "0 \<le> s" "s \<le> 177" unfolding s_def using dark_sum_bounds [OF d(1)] by simp_all
  have "17 * s div 12 \<le> 17 * 177 div 12" using s(2) by (intro zdiv_mono1) simp_all
  then have le: "uint (ramp 60 s) \<le> 250" using ramp_default(2) [OF s] by simp
  then have "ramp 60 s \<noteq> 255" by auto
  with le dark_pixel_alpha [OF assms(1-3) d] have
    "\<exists>out. remove_black_background_data 30 60 data = Inr out \<and>
       uint (out ! y ! x ! 3) \<le> 250 \<and> out ! y ! x ! 3 \<noteq> 255"
    by (auto simp: s_def)
  moreover have "ramp 60 177 = 250" using ramp_default(3) [of 177] by simp
  then have "remap_pixel 30 60 [59, 59, 59, 255] = [59, 59, 59, 250]"
    by (simp add: remap_pixel_def below_def)
  then have "remove_black_background_data 30 60 [[[59, 59, 59, 255]]] = Inr [[[59, 59, 59, 250]]]"
    by (simp add: remove_black_background_data_eq)
  ultimately show ?thesis by simp
qed

theorem ramp_alpha_at_most_250_witness:
  "is_rgba 1 1 [[[30, 0, 0, 255]]] \<and>
   uint ([[[30, 0, 0, 255 :: uint8]]] ! 0 ! 0 ! 0) < 60 \<and>
   \<not> uint ([[[30, 0, 0, 255 :: uint8]]] ! 0 ! 0 ! 0) < 30 \<and>
   (\<exists>out. remove_black_background_data 30 60 [[[30, 0, 0, 255]]] = Inr out \<and>
      uint (out ! 0 ! 0 ! 3) \<le> 250 \<and> out ! 0 ! 0 ! 3 \<noteq> 255)"
  using ramp_alpha_at_most_250 [of 1 1 "[[[30, 0, 0, 255]]]" 0 0]
  by (simp add: is_rgba_def)

end
